theory Spec2Isabelle
  imports Complex_Main "HOL-Library.Char_ord" "HOL-Library.List_Lexorder" "HOL-Library.Product_Lexorder"
begin

section \<open>Python strings\<close>

text \<open>
  A Python \<open>str\<close> is modelled as a \<^typ>\<open>string\<close>: a list of characters whose code points
  lie below 256 (the Latin-1 range, which holds every character the source's literals use,
  the accented letters 0xC9, 0xD3, 0xE9 and 0xF3 and the no-break space 0xA0). The library
  functions below are the restrictions of Python's to that range.
\<close>

definition is_space :: "char \<Rightarrow> bool" where
  \<comment> \<open>\<open>str.isspace\<close> on one character: TAB..CR, FS..US, SPACE, NEL, NBSP\<close>
  "is_space c = (let n = (of_char c :: int) in
     (9 \<le> n \<and> n \<le> 13) \<or> (28 \<le> n \<and> n \<le> 32) \<or> n = 133 \<or> n = 160)"

definition py_strip :: "string \<Rightarrow> string" where
  "py_strip s = rev (dropWhile is_space (rev (dropWhile is_space s)))"

definition lower_char :: "char \<Rightarrow> char" where
  \<comment> \<open>A..Z and the Latin-1 capitals 0xC0..0xDE (without the sign 0xD7) move up by 32\<close>
  "lower_char c = (let n = (of_char c :: int) in
     if (65 \<le> n \<and> n \<le> 90) \<or> (192 \<le> n \<and> n \<le> 222 \<and> n \<noteq> 215)
     then char_of (n + 32) else c)"

definition py_lower :: "string \<Rightarrow> string" where
  "py_lower s = map lower_char s"

fun startswith :: "string \<Rightarrow> string \<Rightarrow> bool" where
  "startswith s [] = True"
| "startswith [] (p # ps) = False"
| "startswith (c # cs) (p # ps) = (c = p \<and> startswith cs ps)"

fun py_in :: "string \<Rightarrow> string \<Rightarrow> bool" where
  \<comment> \<open>\<open>sub in s\<close>\<close>
  "py_in sub [] = (sub = [])"
| "py_in sub (c # cs) = (startswith (c # cs) sub \<or> py_in sub cs)"

definition replace_char :: "char \<Rightarrow> string \<Rightarrow> string \<Rightarrow> string" where
  \<comment> \<open>\<open>s.replace(old, new)\<close> for a one-character \<open>old\<close>\<close>
  "replace_char old new s = concat (map (\<lambda>c. if c = old then new else [c]) s)"

section \<open>Python floats\<close>

text \<open>
  A binary64 value is either not-a-number, an infinity, or a finite rational. The two zeros
  are not told apart (no comparison of the source does).
\<close>

datatype pyfloat = Fin rat | PInf | NInf | NaN

datatype py_error = ValueError | IndexError

fun float_neg :: "pyfloat \<Rightarrow> pyfloat" where
  "float_neg (Fin q) = Fin (- q)"
| "float_neg PInf = NInf"
| "float_neg NInf = PInf"
| "float_neg NaN = NaN"

fun float_abs :: "pyfloat \<Rightarrow> pyfloat" where
  "float_abs (Fin q) = Fin \<bar>q\<bar>"
| "float_abs PInf = PInf"
| "float_abs NInf = PInf"
| "float_abs NaN = NaN"

fun float_gt :: "pyfloat \<Rightarrow> pyfloat \<Rightarrow> bool" where
  \<comment> \<open>\<open>a > b\<close>: false whenever an operand is not a number\<close>
  "float_gt NaN b = False"
| "float_gt a NaN = False"
| "float_gt (Fin a) (Fin b) = (b < a)"
| "float_gt (Fin a) PInf = False"
| "float_gt (Fin a) NInf = True"
| "float_gt PInf PInf = False"
| "float_gt PInf b = True"
| "float_gt NInf b = False"

definition is_finite :: "pyfloat \<Rightarrow> bool" where
  \<comment> \<open>\<open>math.isfinite\<close>\<close>
  "is_finite x = (case x of Fin q \<Rightarrow> True | _ \<Rightarrow> False)"

function bit_length :: "int \<Rightarrow> nat" where
  "bit_length n = (if n \<le> 0 then 0 else Suc (bit_length (n div 2)))"
  by pat_completeness auto
termination
  by (relation "measure nat") auto

declare bit_length.simps [simp del]

definition floor_log2 :: "int \<Rightarrow> int \<Rightarrow> int" where
  \<comment> \<open>the integer \<open>l\<close> with \<open>2^l \<le> n/d < 2^(l+1)\<close>, for positive \<open>n\<close> and \<open>d\<close>\<close>
  "floor_log2 n d = (let l = int (bit_length n) - int (bit_length d) in
     if (if 0 \<le> l then d * 2 ^ nat l \<le> n else d \<le> n * 2 ^ nat (- l)) then l else l - 1)"

definition round_half_even :: "int \<Rightarrow> int \<Rightarrow> int" where
  \<comment> \<open>\<open>n/d\<close> rounded to the nearest integer, a tie to the even one (\<open>0 \<le> n\<close>, \<open>0 < d\<close>)\<close>
  "round_half_even n d = (let q = n div d; r = n mod d in
     if 2 * r < d then q else if d < 2 * r then q + 1 else if even q then q else q + 1)"

definition round64 :: "bool \<Rightarrow> int \<Rightarrow> int \<Rightarrow> pyfloat" where
  \<comment> \<open>the binary64 nearest to \<open>\<plusminus> n/d\<close> for \<open>0 \<le> n\<close> and \<open>0 < d\<close>: a significand of 53
      bits, the least exponent -1074, an infinity from \<open>2^1024\<close> on\<close>
  "round64 neg n d = (if n = 0 then Fin 0 else
     let e = max (floor_log2 n d - 52) (- 1074);
         m = (if 0 \<le> e then round_half_even n (d * 2 ^ nat e)
              else round_half_even (n * 2 ^ nat (- e)) d) in
     if 0 \<le> e \<and> 2 ^ 1024 \<le> m * 2 ^ nat e then (if neg then NInf else PInf)
     else let v = (if 0 \<le> e then rat_of_int (m * 2 ^ nat e)
                   else rat_of_int m / rat_of_int (2 ^ nat (- e))) in
          Fin (if neg then - v else v))"

definition round_rat :: "rat \<Rightarrow> pyfloat" where
  \<comment> \<open>the binary64 nearest to a rational\<close>
  "round_rat q = (case quotient_of q of (n, d) \<Rightarrow> round64 (n < 0) \<bar>n\<bar> d)"

fun float_add :: "pyfloat \<Rightarrow> pyfloat \<Rightarrow> pyfloat" where
  \<comment> \<open>\<open>a + b\<close>: the exact sum, rounded once; opposite infinities give not-a-number\<close>
  "float_add NaN b = NaN"
| "float_add a NaN = NaN"
| "float_add (Fin a) (Fin b) = round_rat (a + b)"
| "float_add (Fin a) PInf = PInf"
| "float_add (Fin a) NInf = NInf"
| "float_add PInf NInf = NaN"
| "float_add PInf b = PInf"
| "float_add NInf PInf = NaN"
| "float_add NInf b = NInf"

definition float_sub :: "pyfloat \<Rightarrow> pyfloat \<Rightarrow> pyfloat" where
  \<comment> \<open>\<open>a - b\<close>\<close>
  "float_sub a b = float_add a (float_neg b)"

definition is_digit :: "char \<Rightarrow> bool" where
  "is_digit c = (48 \<le> (of_char c :: int) \<and> (of_char c :: int) \<le> 57)"

definition digits_val :: "string \<Rightarrow> int" where
  "digits_val ds = foldl (\<lambda>a c. 10 * a + (of_char c - 48)) 0 ds"

fun digits_tail :: "string \<Rightarrow> string \<times> string" where
  \<comment> \<open>\<open>(["_"] digit)*\<close>: the digits read and the rest\<close>
  "digits_tail [] = ([], [])"
| "digits_tail [c] = (if is_digit c then ([c], []) else ([], [c]))"
| "digits_tail (c # d # cs) =
     (if is_digit c then (case digits_tail (d # cs) of (ds, r) \<Rightarrow> (c # ds, r))
      else if c = CHR ''_'' \<and> is_digit d then (case digits_tail cs of (ds, r) \<Rightarrow> (d # ds, r))
      else ([], c # d # cs))"

definition digitpart :: "string \<Rightarrow> (string \<times> string) option" where
  \<comment> \<open>\<open>digit (["_"] digit)*\<close>\<close>
  "digitpart s = (case s of [] \<Rightarrow> None
     | c # cs \<Rightarrow> if is_digit c then (case digits_tail cs of (ds, r) \<Rightarrow> Some (c # ds, r)) else None)"

definition number :: "string \<Rightarrow> (string \<times> string \<times> string) option" where
  \<comment> \<open>\<open>[digitpart] "." digitpart | digitpart ["."]\<close>: integer digits, fraction digits, rest\<close>
  "number s = (case digitpart s of
       Some (ip, r) \<Rightarrow>
         (case r of [] \<Rightarrow> Some (ip, [], [])
          | c # r' \<Rightarrow> if c = CHR ''.'' then
                        (case digitpart r' of Some (fp, r'') \<Rightarrow> Some (ip, fp, r'')
                         | None \<Rightarrow> Some (ip, [], r'))
                      else Some (ip, [], r))
     | None \<Rightarrow>
         (case s of [] \<Rightarrow> None
          | c # r' \<Rightarrow> if c = CHR ''.'' then
                        (case digitpart r' of Some (fp, r'') \<Rightarrow> Some ([], fp, r'')
                         | None \<Rightarrow> None)
                      else None))"

definition sign :: "string \<Rightarrow> bool \<times> string" where
  \<comment> \<open>an optional \<open>+\<close> or \<open>-\<close>: whether it was \<open>-\<close>, and the rest\<close>
  "sign s = (case s of [] \<Rightarrow> (False, [])
     | c # cs \<Rightarrow> if c = CHR ''-'' then (True, cs) else if c = CHR ''+'' then (False, cs)
                 else (False, s))"

definition exponent :: "string \<Rightarrow> int option" where
  \<comment> \<open>the rest after the number: empty, or \<open>("e" | "E") [sign] digitpart\<close> up to the end\<close>
  "exponent s = (case s of [] \<Rightarrow> Some 0
     | c # cs \<Rightarrow> if c = CHR ''e'' \<or> c = CHR ''E'' then
                   (case sign cs of (neg, r) \<Rightarrow>
                      (case digitpart r of
                         Some (ds, r') \<Rightarrow> if r' = [] then
                             Some (if neg then - digits_val ds else digits_val ds)
                           else None
                       | None \<Rightarrow> None))
                 else None)"

definition is_float_space :: "char \<Rightarrow> bool" where
  \<comment> \<open>the characters \<open>float\<close> drops at both ends: TAB..CR, SPACE, NEL, NBSP. Unlike
      \<open>str.strip\<close> it keeps FS..US, which then fail the parse\<close>
  "is_float_space c = (let n = (of_char c :: int) in
     (9 \<le> n \<and> n \<le> 13) \<or> n = 32 \<or> n = 133 \<or> n = 160)"

definition float_strip :: "string \<Rightarrow> string" where
  "float_strip s = rev (dropWhile is_float_space (rev (dropWhile is_float_space s)))"

definition py_float :: "string \<Rightarrow> py_error + pyfloat" where
  \<comment> \<open>\<open>float(s)\<close> on a string\<close>
  "py_float s = (case sign (float_strip s) of (neg, r) \<Rightarrow>
     if py_lower r = ''inf'' \<or> py_lower r = ''infinity'' then Inr (if neg then NInf else PInf)
     else if py_lower r = ''nan'' then Inr NaN
     else (case number r of None \<Rightarrow> Inl ValueError
           | Some (ip, fp, r') \<Rightarrow>
               (case exponent r' of None \<Rightarrow> Inl ValueError
                | Some ex \<Rightarrow>
                    let m = digits_val (ip @ fp); k = ex - int (length fp) in
                    Inr (if 0 \<le> k then round64 neg (m * 10 ^ nat k) 1
                          else round64 neg m (10 ^ nat (- k))))))"

section \<open>The amount normalizer\<close>

definition clean_amount :: "string \<Rightarrow> string" where
  \<comment> \<open>the two cleaning lines of \<open>_parse_amount\<close>: symbols and spaces out, the dots of the
      thousands out, the decimal comma to a dot\<close>
  "clean_amount s =
     (let s1 = replace_char CHR '' '' []
                 (replace_char (CHR 0xA0) '' '' (replace_char CHR ''$'' [] s)) in
      replace_char CHR '','' ''.'' (replace_char CHR ''.'' [] s1))"

definition parse_amount :: "string option \<Rightarrow> pyfloat" where
  \<comment> \<open>\<open>_parse_amount\<close>; its \<open>try\<close>/\<open>except Exception\<close> is the case on \<^const>\<open>py_float\<close>\<close>
  "parse_amount text = (case text of None \<Rightarrow> Fin 0
     | Some t \<Rightarrow>
         let s = py_strip t in
         if s = [] \<or> s = ''-'' then Fin 0
         else (case py_float (clean_amount s) of Inr v \<Rightarrow> v | Inl e \<Rightarrow> Fin 0))"

section \<open>The description classifier\<close>

definition cat_ley_debitos :: string where
  "cat_ley_debitos = ''IMP. LEY 25.413 - D'' @ [CHR 0xC9] @ ''BITOS''"

definition cat_ley_creditos :: string where
  "cat_ley_creditos = ''IMP. LEY 25.413 - CR'' @ [CHR 0xC9] @ ''DITOS''"

definition cat_ley :: string where
  "cat_ley = ''IMP. LEY 25.413''"

definition cat_sircreb :: string where
  "cat_sircreb = ''SIRCREB''"

definition cat_iva21 :: string where
  "cat_iva21 = ''IVA 21%''"

definition cat_iva_percepcion :: string where
  "cat_iva_percepcion = ''IVA PERCEPCI'' @ [CHR 0xD3] @ ''N''"

definition cat_comision :: string where
  "cat_comision = ''COMISI'' @ [CHR 0xD3] @ ''N CUENTA''"

definition cat_haberes :: string where
  "cat_haberes = ''PAGO HABERES''"

definition cat_deposito :: string where
  "cat_deposito = ''DEP'' @ [CHR 0xD3] @ ''SITO EFECTIVO''"

definition cat_otros :: string where
  "cat_otros = ''OTROS''"

definition or_empty :: "string option \<Rightarrow> string" where
  \<comment> \<open>\<open>c or ""\<close>\<close>
  "or_empty c = (case c of None \<Rightarrow> [] | Some s \<Rightarrow> s)"

definition clasificar_movimiento :: "string option \<Rightarrow> string" where
  "clasificar_movimiento desc =
     (let d = py_lower (or_empty desc) in
      if py_in ''impuesto ley 25.413'' d \<or> py_in ''impuesto ley 25413'' d then
        (if py_in ''debito'' d then cat_ley_debitos
         else if py_in ''credito'' d then cat_ley_creditos
         else cat_ley)
      else if py_in ''sircreb'' d then cat_sircreb
      else if py_in ''iva 21'' d \<or> py_in ''iva 21% reg'' d then cat_iva21
      else if py_in ''iva percepcion'' d \<or> py_in (''iva percepci'' @ [CHR 0xF3] @ ''n'') d
        then cat_iva_percepcion
      else if py_in ''comision por servicio de cuenta'' d then cat_comision
      else if py_in ''pago haberes'' d then cat_haberes
      else if py_in ''deposito de efectivo'' d \<or> py_in ''deposito efvo'' d then cat_deposito
      else cat_otros)"

section \<open>Dates\<close>

text \<open>
  \<open>pd.to_datetime(column, format="%d/%m/%y", errors="coerce")\<close>, one string at a time: the
  whole string has to match the format (day \<open>3[0-1]|[1-2]\d|0[1-9]|[1-9]| [1-9]\<close>, month
  \<open>1[0-2]|0[1-9]|[1-9]\<close>, year \<open>\d\d\<close>) and name a day of the calendar; otherwise the
  value is \<open>NaT\<close>, here \<open>None\<close>. A date is (year, month, day), compared in that order.
\<close>

type_synonym date = "nat \<times> nat \<times> nat"

definition digit_of :: "char \<Rightarrow> nat" where
  "digit_of c = of_char c - 48"

definition is_digit19 :: "char \<Rightarrow> bool" where
  "is_digit19 c = (is_digit c \<and> c \<noteq> CHR ''0'')"

fun field_d :: "string \<Rightarrow> (nat \<times> string) option" where
  \<comment> \<open>\<open>%d\<close>: a longer alternative that matches leaves no shorter one that could be followed
      by the slash, so the first match is the regex engine's\<close>
  "field_d (a # b # r) =
     (if (a = CHR ''3'' \<and> (b = CHR ''0'' \<or> b = CHR ''1''))
         \<or> ((a = CHR ''1'' \<or> a = CHR ''2'') \<and> is_digit b)
         \<or> (a = CHR ''0'' \<and> is_digit19 b)
      then Some (10 * digit_of a + digit_of b, r)
      else if is_digit19 a then Some (digit_of a, b # r)
      else if a = CHR '' '' \<and> is_digit19 b then Some (digit_of b, r)
      else None)"
| "field_d [a] = (if is_digit19 a then Some (digit_of a, []) else None)"
| "field_d [] = None"

fun field_m :: "string \<Rightarrow> (nat \<times> string) option" where
  "field_m (a # b # r) =
     (if (a = CHR ''1'' \<and> (b = CHR ''0'' \<or> b = CHR ''1'' \<or> b = CHR ''2''))
         \<or> (a = CHR ''0'' \<and> is_digit19 b)
      then Some (10 * digit_of a + digit_of b, r)
      else if is_digit19 a then Some (digit_of a, b # r)
      else None)"
| "field_m [a] = (if is_digit19 a then Some (digit_of a, []) else None)"
| "field_m [] = None"

fun field_y :: "string \<Rightarrow> (nat \<times> string) option" where
  "field_y (a # b # r) =
     (if is_digit a \<and> is_digit b then Some (10 * digit_of a + digit_of b, r) else None)"
| "field_y r = None"

fun slash :: "string \<Rightarrow> string option" where
  "slash (c # r) = (if c = CHR ''/'' then Some r else None)"
| "slash [] = None"

definition is_leap :: "nat \<Rightarrow> bool" where
  "is_leap y = (y mod 4 = 0 \<and> (y mod 100 \<noteq> 0 \<or> y mod 400 = 0))"

definition days_in_month :: "nat \<Rightarrow> nat \<Rightarrow> nat" where
  "days_in_month y m =
     (if m = 2 then (if is_leap y then 29 else 28)
      else if m = 4 \<or> m = 6 \<or> m = 9 \<or> m = 11 then 30 else 31)"

definition to_datetime :: "string \<Rightarrow> date option" where
  "to_datetime s =
     (case field_d s of None \<Rightarrow> None
      | Some (d, r1) \<Rightarrow>
     (case slash r1 of None \<Rightarrow> None
      | Some r2 \<Rightarrow>
     (case field_m r2 of None \<Rightarrow> None
      | Some (m, r3) \<Rightarrow>
     (case slash r3 of None \<Rightarrow> None
      | Some r4 \<Rightarrow>
     (case field_y r4 of None \<Rightarrow> None
      | Some (y, r5) \<Rightarrow>
          if r5 \<noteq> [] then None
          else let year = (if y \<le> 68 then 2000 + y else 1900 + y) in
               if d \<le> days_in_month year m then Some (year, m, d) else None)))))"

section \<open>The statement parser\<close>

text \<open>
  \<open>pdfplumber\<close> hands over, page by page, the tables of the page; a table is a list of
  rows and a row a list of cells, each a string or \<open>None\<close>. The dictionary the parser
  appends for an accepted row is the record \<open>fila\<close>; the data frame adds the two computed
  columns and is a list of \<open>movimiento\<close> records, one per row, in index order.
\<close>

type_synonym raw_row = "string option list"

record fila =
  fecha_str :: string
  comprobante :: string
  movimiento :: string
  debito :: pyfloat
  credito :: pyfloat
  saldo :: pyfloat
  tipo :: string
  importe :: pyfloat
  importe_raw :: pyfloat

record movimiento_row = fila +
  fecha :: "date option"
  categoria :: string

definition truthy :: "string option \<Rightarrow> bool" where
  \<comment> \<open>the truth value of a cell: neither \<open>None\<close> nor the empty string\<close>
  "truthy c = (case c of None \<Rightarrow> False | Some s \<Rightarrow> s \<noteq> [])"

definition re_match_fecha :: "string \<Rightarrow> bool" where
  \<comment> \<open>\<open>re.match(r"\d{2}/\d{2}/\d{2}", s)\<close>: anchored at the start only\<close>
  "re_match_fecha s = (case s of
       d1 # d2 # s1 # m1 # m2 # s2 # y1 # y2 # rest \<Rightarrow>
         is_digit d1 \<and> is_digit d2 \<and> s1 = CHR ''/'' \<and> is_digit m1 \<and> is_digit m2
         \<and> s2 = CHR ''/'' \<and> is_digit y1 \<and> is_digit y2
     | _ \<Rightarrow> False)"

definition pad_cells :: "raw_row \<Rightarrow> string list" where
  \<comment> \<open>the stripped cells, filled up with empty strings to six at least\<close>
  "pad_cells raw = (let cells = map (\<lambda>c. py_strip (or_empty c)) raw in
     if length cells < 6 then cells @ replicate (6 - length cells) [] else cells)"

definition make_fila ::
    "string \<Rightarrow> string \<Rightarrow> string \<Rightarrow> string \<Rightarrow> string \<Rightarrow> string \<Rightarrow> fila" where
  \<comment> \<open>lines 153 to 183: the amounts, the direction and the dictionary of one accepted row\<close>
  "make_fila fecha_txt compr mov deb_txt cred_txt saldo_txt =
     (let deb = parse_amount (Some deb_txt);
          cred = parse_amount (Some cred_txt);
          sal = parse_amount (Some saldo_txt) in
      if float_gt (float_abs deb) (Fin 0) then
        \<lparr>fecha_str = fecha_txt, comprobante = compr, movimiento = mov, debito = deb,
         credito = cred, saldo = sal, tipo = ''DEBITO'', importe = float_neg deb,
         importe_raw = deb\<rparr>
      else if float_gt (float_abs cred) (Fin 0) then
        \<lparr>fecha_str = fecha_txt, comprobante = compr, movimiento = mov, debito = deb,
         credito = cred, saldo = sal, tipo = ''CREDITO'', importe = cred,
         importe_raw = cred\<rparr>
      else
        \<lparr>fecha_str = fecha_txt, comprobante = compr, movimiento = mov, debito = deb,
         credito = cred, saldo = sal, tipo = [], importe = Fin 0,
         importe_raw = Fin 0\<rparr>)"

definition build_fila :: "string list \<Rightarrow> fila option" where
  \<comment> \<open>lines 147 to 151: the first six cells by position, then the date filter, whose
      \<open>continue\<close> is \<open>None\<close> (fewer than six cells never arrive here)\<close>
  "build_fila cells = (case take 6 cells of
       [fecha_txt, compr, mov, deb_txt, cred_txt, saldo_txt] \<Rightarrow>
         if \<not> re_match_fecha fecha_txt then None
         else Some (make_fila fecha_txt compr mov deb_txt cred_txt saldo_txt)
     | _ \<Rightarrow> None)"

definition process_row :: "raw_row \<Rightarrow> fila option" where
  \<comment> \<open>the body of the loop over the rows of a table (lines 139 to 183)\<close>
  "process_row raw = (if raw = [] \<or> \<not> list_ex truthy raw then None
     else build_fila (pad_cells raw))"

fun py_join :: "string \<Rightarrow> string list \<Rightarrow> string" where
  "py_join sep [] = []"
| "py_join sep [x] = x"
| "py_join sep (x # y # xs) = x @ sep @ py_join sep (y # xs)"

definition table_rows :: "raw_row list \<Rightarrow> fila list" where
  \<comment> \<open>one table (lines 128 to 183)\<close>
  "table_rows table = (if length table < 2 then []
     else let header = map (\<lambda>c. py_lower (py_strip (or_empty c))) (hd table);
              header_join = py_join '' '' header in
          if py_in ''fecha'' header_join \<and> py_in ''saldo'' header_join
          then List.map_filter process_row (tl table) else [])"

definition extract_rows :: "raw_row list list list \<Rightarrow> fila list" where
  \<comment> \<open>the loops over pages and tables: the accepted rows in document order\<close>
  "extract_rows pages = concat (map (\<lambda>tables. concat (map table_rows tables)) pages)"

definition add_columns :: "fila \<Rightarrow> movimiento_row" where
  \<comment> \<open>the columns \<open>fecha\<close> and \<open>categoria\<close> of the data frame\<close>
  "add_columns r = fila.extend r
     (movimiento_row.fields (to_datetime (fecha_str r)) (clasificar_movimiento (Some (movimiento r))))"

definition sort_rank :: "movimiento_row \<Rightarrow> (nat \<times> date) \<times> string" where
  \<comment> \<open>the key of \<open>sort_values(["fecha", "comprobante"])\<close>, ascending, with the default
      \<open>na_position="last"\<close>: a row without a date ranks after every dated row\<close>
  "sort_rank r = ((case fecha r of None \<Rightarrow> (1, (0, 0, 0)) | Some d \<Rightarrow> (0, d)), comprobante r)"

definition sort_values :: "movimiento_row list \<Rightarrow> movimiento_row list" where
  \<comment> \<open>sorting by several columns is a lexsort in pandas, which is stable\<close>
  "sort_values df = sort_key sort_rank df"

definition parse_santander_pdf :: "raw_row list list list \<Rightarrow> movimiento_row list" where
  "parse_santander_pdf pages = (let rows = extract_rows pages in
     if rows = [] then [] else sort_values (map add_columns rows))"

section \<open>The tax summary\<close>

definition categorias_interes :: "string list" where
  "categorias_interes = [cat_ley_debitos, cat_ley_creditos, cat_ley, cat_sircreb, cat_iva21,
     cat_iva_percepcion, cat_comision]"

fun index_of :: "'a \<Rightarrow> 'a list \<Rightarrow> nat option" where
  "index_of x [] = None"
| "index_of x (y # ys) = (if x = y then Some 0 else map_option Suc (index_of x ys))"

definition orden :: "string \<Rightarrow> nat" where
  \<comment> \<open>\<open>resumen["Concepto"].map(orden).fillna(999)\<close>\<close>
  "orden c = (case index_of c categorias_interes of Some i \<Rightarrow> i | None \<Rightarrow> 999)"

text \<open>
  \<open>groupby("categoria")["importe_raw"].sum()\<close> adds the values of each group in row
  order. pandas does this for a float column by compensated (Kahan) summation, one running
  sum and one running compensation per group, both 0.0 at first; a value that is
  not-a-number is skipped, and a compensation that is not-a-number (an infinity came by) is
  set back to 0.0. A group without a counted value has the sum 0.0 (\<open>min_count=0\<close>).
\<close>

definition kahan_step :: "pyfloat \<times> pyfloat \<Rightarrow> pyfloat \<Rightarrow> pyfloat \<times> pyfloat" where
  \<comment> \<open>one value added to (sum, compensation): \<open>y = val - c; t = s + y; c = t - s - y; s = t\<close>\<close>
  "kahan_step acc val = (case acc of (sumx, compensation) \<Rightarrow>
     if val = NaN then (sumx, compensation)
     else let y = float_sub val compensation;
              t = float_add sumx y;
              c = float_sub (float_sub t sumx) y in
          (t, if c = NaN then Fin 0 else c))"

definition group_sum :: "pyfloat list \<Rightarrow> pyfloat" where
  \<comment> \<open>the sum pandas returns for the values of one group, in row order\<close>
  "group_sum vals = fst (foldl kahan_step (Fin 0, Fin 0) vals)"

text \<open>
  The summary is a list of (Concepto, Importe) rows. \<open>groupby\<close> lists the groups by
  ascending key; the keys of the final \<open>sort_values("__orden")\<close> are distinct.
\<close>

definition construir_resumen_impositivo :: "movimiento_row list \<Rightarrow> (string \<times> pyfloat) list" where
  "construir_resumen_impositivo df =
     (if df = [] then []
      else let df_imp = filter (\<lambda>r. categoria r \<in> set categorias_interes) df in
        if df_imp = [] then []
        else let resumen = map (\<lambda>c. (c, group_sum (map importe_raw
                                 (filter (\<lambda>r. categoria r = c) df_imp))))
                             (sort (remdups (map categoria df_imp)))
             in sort_key (\<lambda>row. orden (fst row)) resumen)"

section \<open>The balance snapshot\<close>

definition str_contains_nocase :: "string \<Rightarrow> string \<Rightarrow> bool" where
  \<comment> \<open>\<open>Series.str.contains(pat, case=False)\<close> on one string, for a pattern of letters and
      spaces\<close>
  "str_contains_nocase pat s = py_in (py_lower pat) (py_lower s)"

definition iloc_first :: "'a list \<Rightarrow> py_error + 'a" where
  \<comment> \<open>\<open>.iloc[0]\<close>\<close>
  "iloc_first xs = (case xs of [] \<Rightarrow> Inl IndexError | x # _ \<Rightarrow> Inr x)"

definition iloc_last :: "'a list \<Rightarrow> py_error + 'a" where
  \<comment> \<open>\<open>.iloc[-1]\<close>\<close>
  "iloc_last xs = (if xs = [] then Inl IndexError else Inr (last xs))"

definition calcular_saldos :: "movimiento_row list \<Rightarrow> py_error + (pyfloat \<times> pyfloat)" where
  "calcular_saldos df =
     (if df = [] then Inr (Fin 0, Fin 0)
      else
        let mask_si = (\<lambda>r. str_contains_nocase ''saldo inicial'' (movimiento r)) in
        (case (if list_ex mask_si df then iloc_first (map saldo (filter mask_si df))
               else iloc_first (map saldo df)) of
           Inl e \<Rightarrow> Inl e
         | Inr saldo_inicial \<Rightarrow>
             (case iloc_last (map saldo df) of
                Inl e \<Rightarrow> Inl e
              | Inr saldo_final \<Rightarrow> Inr (saldo_inicial, saldo_final))))"

section \<open>Properties of the amount normalizer\<close>

lemma parse_amount_millions: "parse_amount (Some ''5.000.000,00'') = Fin 5000000"
  by code_simp

lemma parse_amount_dash: "parse_amount (Some ''-'') = Fin 0"
  by code_simp

lemma parse_amount_currency: "parse_amount (Some ''$ 1.234,56'') = round64 False 123456 100"
  by code_simp

lemma round64_1234_56: "round64 False 123456 100 = Fin (2714826150374277 / 2199023255552)"
  by code_simp

lemma parse_amount_blank: "py_strip t = [] \<Longrightarrow> parse_amount (Some t) = Fin 0"
  by (simp add: parse_amount_def)

lemma parse_amount_fallback:
  "py_float (clean_amount (py_strip t)) = Inl e \<Longrightarrow> parse_amount (Some t) = Fin 0"
  by (simp add: parse_amount_def Let_def)

lemma parse_amount_value:
  "py_strip t \<noteq> [] \<Longrightarrow> py_strip t \<noteq> ''-'' \<Longrightarrow> py_float (clean_amount (py_strip t)) = Inr v
   \<Longrightarrow> parse_amount (Some t) = v"
  by (simp add: parse_amount_def Let_def)

text \<open>
  C8, as the claim states it, fails: the normalizer does not always return a finite float.
  The text \<open>nan\<close> survives the cleaning and \<open>float\<close> reads it as not-a-number.
\<close>

theorem parse_amount_not_finite: "\<not> is_finite (parse_amount (Some ''nan''))"
  by code_simp

text \<open>
  C8, amended: the normalizer returns a float for every input, \<open>None\<close>, blank text and
  garbage included, and no exception leaves it (the only raise, the \<open>ValueError\<close> of
  \<open>float\<close>, is caught and gives 0.0). The float is the one \<open>float\<close> reads from the cleaned
  text, which need not be finite. A cleaned text that \<open>float\<close> refuses, such as one with
  the separator 0x1C left beside the digits, falls back to 0.0. The literal \<open>1234.56\<close> of Python is the binary64 nearest
  to 123456/100, that is \<open>round64 False 123456 100\<close>.
\<close>

theorem parse_amount_total:
  "parse_amount (Some ''5.000.000,00'') = Fin 5000000
   \<and> parse_amount (Some ''-'') = Fin 0
   \<and> parse_amount None = Fin 0
   \<and> parse_amount (Some ''$ 1.234,56'') = round64 False 123456 100
   \<and> round64 False 123456 100 = Fin (2714826150374277 / 2199023255552)
   \<and> (\<forall>t. py_strip t = [] \<longrightarrow> parse_amount (Some t) = Fin 0)
   \<and> (\<forall>t e. py_float (clean_amount (py_strip t)) = Inl e \<longrightarrow> parse_amount (Some t) = Fin 0)
   \<and> (\<forall>t v. py_strip t \<noteq> [] \<and> py_strip t \<noteq> ''-''
          \<and> py_float (clean_amount (py_strip t)) = Inr v \<longrightarrow> parse_amount (Some t) = v)"
proof -
  have none: "parse_amount None = Fin 0"
    by (simp add: parse_amount_def)
  show ?thesis
    using parse_amount_millions parse_amount_dash none parse_amount_currency round64_1234_56
      parse_amount_blank parse_amount_fallback parse_amount_value
    by blast
qed

theorem parse_amount_total_witness:
  "py_strip ''   '' = [] \<and> parse_amount (Some ''   '') = Fin 0
   \<and> py_float (clean_amount (py_strip ''1.2.3,4,5 abc'')) = Inl ValueError
   \<and> parse_amount (Some ''1.2.3,4,5 abc'') = Fin 0
   \<and> py_float (clean_amount (py_strip [CHR ''$'', CHR 0x1C, CHR ''9''])) = Inl ValueError
   \<and> parse_amount (Some [CHR ''$'', CHR 0x1C, CHR ''9'']) = Fin 0
   \<and> py_strip '' 7,50 '' \<noteq> [] \<and> py_strip '' 7,50 '' \<noteq> ''-''
   \<and> py_float (clean_amount (py_strip '' 7,50 '')) = Inr (Fin (15 / 2))
   \<and> parse_amount (Some '' 7,50 '') = Fin (15 / 2)"
proof -
  have b: "py_strip ''   '' = []"
    by code_simp
  have g: "py_float (clean_amount (py_strip ''1.2.3,4,5 abc'')) = Inl ValueError"
    by code_simp
  have h: "py_float (clean_amount (py_strip [CHR ''$'', CHR 0x1C, CHR ''9''])) = Inl ValueError"
    by code_simp
  have v1: "py_strip '' 7,50 '' \<noteq> []" and v2: "py_strip '' 7,50 '' \<noteq> ''-''"
    by code_simp+
  have v3: "py_float (clean_amount (py_strip '' 7,50 '')) = Inr (Fin (15 / 2))"
    by code_simp
  from parse_amount_total have
    blank: "\<forall>t. py_strip t = [] \<longrightarrow> parse_amount (Some t) = Fin 0" and
    fall: "\<forall>t e. py_float (clean_amount (py_strip t)) = Inl e \<longrightarrow> parse_amount (Some t) = Fin 0" and
    val: "\<forall>t v. py_strip t \<noteq> [] \<and> py_strip t \<noteq> ''-''
          \<and> py_float (clean_amount (py_strip t)) = Inr v \<longrightarrow> parse_amount (Some t) = v"
    by blast+
  from blank b have "parse_amount (Some ''   '') = Fin 0"
    by blast
  moreover from fall g have "parse_amount (Some ''1.2.3,4,5 abc'') = Fin 0"
    by blast
  moreover from fall h have "parse_amount (Some [CHR ''$'', CHR 0x1C, CHR ''9'']) = Fin 0"
    by blast
  moreover from val v1 v2 v3 have "parse_amount (Some '' 7,50 '') = Fin (15 / 2)"
    by blast
  ultimately show ?thesis
    using b g h v1 v2 v3 by blast
qed

section \<open>Properties of the description classifier\<close>

lemma cat_ley_distinct:
  "cat_ley_debitos \<noteq> cat_ley" "cat_ley_creditos \<noteq> cat_ley_debitos"
  "cat_ley \<noteq> cat_ley_debitos"
  by (simp_all add: cat_ley_debitos_def cat_ley_creditos_def cat_ley_def)

lemma clasificar_None: "clasificar_movimiento None = cat_otros"
  by code_simp

lemma clasificar_empty: "clasificar_movimiento (Some []) = cat_otros"
  by code_simp

text \<open>
  C5: the rules are tried in order and the first match wins. A description whose lower-cased
  text contains the marker of law 25.413 (in either spelling) and the qualifier \<open>debito\<close>
  gets the category of the debits, never the bare category of the law; a missing or empty
  description gets \<open>OTROS\<close>.
\<close>

theorem clasificar_debitos_first:
  "((py_in ''impuesto ley 25.413'' (py_lower d) \<or> py_in ''impuesto ley 25413'' (py_lower d))
      \<and> py_in ''debito'' (py_lower d)
     \<longrightarrow> clasificar_movimiento (Some d) = cat_ley_debitos
         \<and> clasificar_movimiento (Some d) \<noteq> cat_ley)
   \<and> clasificar_movimiento None = cat_otros
   \<and> clasificar_movimiento (Some []) = cat_otros"
  using cat_ley_distinct(1) clasificar_None clasificar_empty
  by (simp add: clasificar_movimiento_def or_empty_def)

theorem clasificar_debitos_first_witness:
  "py_in ''impuesto ley 25.413'' (py_lower ''Impuesto Ley 25.413 s/Debitos'')
   \<and> py_in ''debito'' (py_lower ''Impuesto Ley 25.413 s/Debitos'')
   \<and> clasificar_movimiento (Some ''Impuesto Ley 25.413 s/Debitos'') = cat_ley_debitos"
proof -
  have m: "py_in ''impuesto ley 25.413'' (py_lower ''Impuesto Ley 25.413 s/Debitos'')"
    by code_simp
  have q: "py_in ''debito'' (py_lower ''Impuesto Ley 25.413 s/Debitos'')"
    by code_simp
  from clasificar_debitos_first [of "''Impuesto Ley 25.413 s/Debitos''"] m q
  show ?thesis by blast
qed

text \<open>
  C10, as the claim states it, fails for a description that also holds the qualifier
  \<open>credito\<close>: with the marker, the accented word (\<open>d\<close>, 0xE9, \<open>bito\<close>) and no \<open>debito\<close>, the category is that
  of the credits, not the bare one.
\<close>

theorem clasificar_accent_credito:
  "py_in ''impuesto ley 25.413''
     (py_lower (''Impuesto Ley 25.413 d'' @ [CHR 0xE9] @ ''bito credito''))
   \<and> py_in (''d'' @ [CHR 0xE9] @ ''bito'')
     (py_lower (''Impuesto Ley 25.413 d'' @ [CHR 0xE9] @ ''bito credito''))
   \<and> \<not> py_in ''debito'' (py_lower (''Impuesto Ley 25.413 d'' @ [CHR 0xE9] @ ''bito credito''))
   \<and> clasificar_movimiento (Some (''Impuesto Ley 25.413 d'' @ [CHR 0xE9] @ ''bito credito''))
       \<noteq> cat_ley"
  by code_simp

text \<open>
  C10, amended: the qualifiers are matched without regard to case but with regard to
  accents. A description with the marker of the law and the accented word, and without
  the plain \<open>debito\<close>, never gets the category of the debits: it gets the bare category of
  the law, unless it holds \<open>credito\<close>, and then the category of the credits.
\<close>

theorem clasificar_accent:
  assumes "py_in ''impuesto ley 25.413'' (py_lower d) \<or> py_in ''impuesto ley 25413'' (py_lower d)"
    and "py_in (''d'' @ [CHR 0xE9] @ ''bito'') (py_lower d)"
    and "\<not> py_in ''debito'' (py_lower d)"
  shows "clasificar_movimiento (Some d) \<noteq> cat_ley_debitos
     \<and> clasificar_movimiento (Some d) =
         (if py_in ''credito'' (py_lower d) then cat_ley_creditos else cat_ley)"
  using assms cat_ley_distinct
  by (simp add: clasificar_movimiento_def or_empty_def)

theorem clasificar_accent_witness:
  "py_in ''impuesto ley 25.413'' (py_lower (''IMPUESTO LEY 25.413 D'' @ [CHR 0xC9] @ ''BITO''))
   \<and> py_in (''d'' @ [CHR 0xE9] @ ''bito'')
        (py_lower (''IMPUESTO LEY 25.413 D'' @ [CHR 0xC9] @ ''BITO''))
   \<and> \<not> py_in ''debito'' (py_lower (''IMPUESTO LEY 25.413 D'' @ [CHR 0xC9] @ ''BITO''))
   \<and> clasificar_movimiento (Some (''IMPUESTO LEY 25.413 D'' @ [CHR 0xC9] @ ''BITO'')) = cat_ley"
proof -
  let ?d = "''IMPUESTO LEY 25.413 D'' @ [CHR 0xC9] @ ''BITO''"
  have a: "py_in ''impuesto ley 25.413'' (py_lower ?d)" by code_simp
  have b: "py_in (''d'' @ [CHR 0xE9] @ ''bito'') (py_lower ?d)" by code_simp
  have c: "\<not> py_in ''debito'' (py_lower ?d)" by code_simp
  have e: "\<not> py_in ''credito'' (py_lower ?d)" by code_simp
  from clasificar_accent [of ?d] a b c e show ?thesis by presburger
qed

section \<open>Properties of the row filter and the row builder\<close>

lemma length6E:
  assumes "length xs = 6"
  obtains a b c d e f where "xs = [a, b, c, d, e, f]"
  using assms by (auto simp: length_Suc_conv eval_nat_numeral)

lemma length_pad_cells: "6 \<le> length (pad_cells raw)"
  by (simp add: pad_cells_def Let_def)

lemma hd_pad_cells: "pad_cells (c # rest) \<noteq> [] \<and> hd (pad_cells (c # rest)) = py_strip (or_empty c)"
  by (simp add: pad_cells_def Let_def)

lemma fecha_str_make_fila [simp]: "fecha_str (make_fila a b c d e f) = a"
  by (simp add: make_fila_def Let_def)

lemma build_fila_hd:
  assumes "6 \<le> length cells"
  shows "\<exists>b c d e f. build_fila cells =
     (if \<not> re_match_fecha (hd cells) then None else Some (make_fila (hd cells) b c d e f))"
proof -
  from assms have "length (take 6 cells) = 6" by simp
  then obtain a b c d e f where t: "take 6 cells = [a, b, c, d, e, f]"
    by (rule length6E)
  from assms have "hd (take 6 cells) = hd cells"
    by (cases cells) simp_all
  with t have "a = hd cells" by simp
  with t have "build_fila cells =
     (if \<not> re_match_fecha (hd cells) then None else Some (make_fila (hd cells) b c d e f))"
    by (simp add: build_fila_def)
  then show ?thesis by blast
qed

lemma build_fila_take: "build_fila (take 6 cells) = build_fila cells"
  by (simp add: build_fila_def)

lemma re_match_fecha_iff:
  "re_match_fecha s \<longleftrightarrow> (\<exists>d1 d2 m1 m2 y1 y2 more.
      s = [d1, d2, CHR ''/'', m1, m2, CHR ''/'', y1, y2] @ more
      \<and> is_digit d1 \<and> is_digit d2 \<and> is_digit m1 \<and> is_digit m2 \<and> is_digit y1 \<and> is_digit y2)"
  by (auto simp: re_match_fecha_def split: list.splits)

lemma py_strip_nonempty: "py_strip s \<noteq> [] \<Longrightarrow> s \<noteq> []"
  by (auto simp: py_strip_def)

lemma truthy_if_strip: "py_strip (or_empty c) \<noteq> [] \<Longrightarrow> truthy c"
  by (cases c) (auto simp: truthy_def or_empty_def dest: py_strip_nonempty)

lemma process_row_Cons:
  "\<exists>b c' d e f. process_row (c # rest) =
     (if re_match_fecha (py_strip (or_empty c))
      then Some (make_fila (py_strip (or_empty c)) b c' d e f) else None)"
proof (cases "re_match_fecha (py_strip (or_empty c))")
  case True
  then have "py_strip (or_empty c) \<noteq> []"
    by (auto simp: re_match_fecha_def)
  then have "truthy c" by (rule truthy_if_strip)
  then have "process_row (c # rest) = build_fila (pad_cells (c # rest))"
    by (simp add: process_row_def)
  with build_fila_hd [OF length_pad_cells, of "c # rest"] hd_pad_cells [of c rest] True
  show ?thesis by auto
next
  case False
  with build_fila_hd [OF length_pad_cells, of "c # rest"] hd_pad_cells [of c rest]
  show ?thesis by (auto simp: process_row_def)
qed

lemma process_row_pad: "process_row (raw @ replicate (6 - length raw) None) = process_row raw"
proof (cases "raw = []")
  case True
  then show ?thesis by (simp add: process_row_def truthy_def list_ex_iff)
next
  case False
  have "pad_cells (raw @ replicate (6 - length raw) None) = pad_cells raw"
    by (auto simp: pad_cells_def Let_def or_empty_def py_strip_def)
  moreover have "list_ex truthy (raw @ replicate (6 - length raw) None) = list_ex truthy raw"
    by (auto simp: list_ex_iff truthy_def)
  ultimately show ?thesis using False by (simp add: process_row_def)
qed

text \<open>
  C1, as the claim states it, fails: \<open>re.match\<close> anchors the pattern at the start only, so
  a row whose date field is \<open>31/02/99foo\<close> is accepted, not excluded.
\<close>

theorem process_row_accepts_trailing_text:
  "process_row [Some ''31/02/99foo'', Some ''1'', Some ''x'', Some ''1,00'', Some '''', Some ''2,00'']
     \<noteq> None"
  by code_simp

text \<open>
  C1, amended: a row is accepted only if its date field (the first cell, stripped) begins
  with two digits, a slash, two digits, a slash and two digits; whatever follows is not
  looked at. So a row whose date field is empty is excluded, a row whose date field is
  \<open>31/02/99foo\<close> is accepted, and a row whose date field is \<open>01/03/24\<close> is accepted however
  many cells it has: a short row counts as the row filled up to six cells with empty ones.
\<close>

theorem process_row_accepted:
  "(process_row (c # rest) = Some t \<longrightarrow>
      fecha_str t = py_strip (or_empty c)
      \<and> (\<exists>d1 d2 m1 m2 y1 y2 more.
           py_strip (or_empty c) = [d1, d2, CHR ''/'', m1, m2, CHR ''/'', y1, y2] @ more
           \<and> is_digit d1 \<and> is_digit d2 \<and> is_digit m1 \<and> is_digit m2 \<and> is_digit y1 \<and> is_digit y2))
   \<and> (py_strip (or_empty c) = [] \<longrightarrow> process_row (c # rest) = None)
   \<and> (py_strip (or_empty c) = ''31/02/99foo'' \<longrightarrow> process_row (c # rest) \<noteq> None)
   \<and> (py_strip (or_empty c) = ''01/03/24'' \<longrightarrow>
        (\<exists>t'. process_row (c # rest) = Some t' \<and> fecha_str t' = ''01/03/24''))
   \<and> process_row (raw @ replicate (6 - length raw) None) = process_row raw"
proof -
  obtain b c' d e f where p: "process_row (c # rest) =
     (if re_match_fecha (py_strip (or_empty c))
      then Some (make_fila (py_strip (or_empty c)) b c' d e f) else None)"
    using process_row_Cons by blast
  have m1: "re_match_fecha ''31/02/99foo''" and m2: "re_match_fecha ''01/03/24''"
    and m3: "\<not> re_match_fecha []"
    by code_simp+
  have "process_row (c # rest) = Some t \<longrightarrow>
      fecha_str t = py_strip (or_empty c) \<and> re_match_fecha (py_strip (or_empty c))"
    using p by (auto split: if_splits)
  moreover have "py_strip (or_empty c) = [] \<longrightarrow> process_row (c # rest) = None"
    using p m3 by auto
  moreover have "py_strip (or_empty c) = ''31/02/99foo'' \<longrightarrow> process_row (c # rest) \<noteq> None"
    using p m1 by auto
  moreover have "py_strip (or_empty c) = ''01/03/24'' \<longrightarrow>
        (\<exists>t'. process_row (c # rest) = Some t' \<and> fecha_str t' = ''01/03/24'')"
    using p m2 by auto
  ultimately show ?thesis
    using process_row_pad [of raw] re_match_fecha_iff [of "py_strip (or_empty c)"] by blast
qed

theorem process_row_accepted_witness:
  "process_row (Some '' 01/03/24 '' # [Some ''77'']) = Some (make_fila ''01/03/24'' ''77'' [] [] [] [])
   \<and> fecha_str (make_fila ''01/03/24'' ''77'' [] [] [] []) = py_strip (or_empty (Some '' 01/03/24 ''))
   \<and> py_strip (or_empty (Some ''  '')) = [] \<and> process_row (Some ''  '' # [Some ''x'']) = None
   \<and> py_strip (or_empty (Some ''31/02/99foo'')) = ''31/02/99foo''
   \<and> process_row (Some ''31/02/99foo'' # []) \<noteq> None
   \<and> py_strip (or_empty (Some '' 01/03/24 '')) = ''01/03/24''
   \<and> (\<exists>t'. process_row (Some '' 01/03/24 '' # [Some ''77'']) = Some t' \<and> fecha_str t' = ''01/03/24'')"
proof -
  have a: "process_row (Some '' 01/03/24 '' # [Some ''77''])
      = Some (make_fila ''01/03/24'' ''77'' [] [] [] [])"
    by code_simp
  have b: "py_strip (or_empty (Some ''  '')) = []"
    by code_simp
  have c: "py_strip (or_empty (Some ''31/02/99foo'')) = ''31/02/99foo''"
    by code_simp
  have d: "py_strip (or_empty (Some '' 01/03/24 '')) = ''01/03/24''"
    by code_simp
  from process_row_accepted [of "Some '' 01/03/24 ''" "[Some ''77'']"
      "make_fila ''01/03/24'' ''77'' [] [] [] []" "[]"] a d
  have 1: "fecha_str (make_fila ''01/03/24'' ''77'' [] [] [] []) = py_strip (or_empty (Some '' 01/03/24 ''))"
    and 4: "\<exists>t'. process_row (Some '' 01/03/24 '' # [Some ''77'']) = Some t' \<and> fecha_str t' = ''01/03/24''"
    by blast+
  from process_row_accepted [of "Some ''  ''" "[Some ''x'']" undefined "[]"] b
  have 2: "process_row (Some ''  '' # [Some ''x'']) = None"
    by blast
  from process_row_accepted [of "Some ''31/02/99foo''" "[]" undefined "[]"] c
  have 3: "process_row (Some ''31/02/99foo'' # []) \<noteq> None"
    by blast
  from a 1 b 2 c 3 d 4 show ?thesis by blast
qed

lemma build_fila_falsy_head: "\<not> truthy c \<Longrightarrow> build_fila (pad_cells (c # rest)) = None"
proof -
  assume "\<not> truthy c"
  then have "py_strip (or_empty c) = []"
    by (cases c) (auto simp: truthy_def or_empty_def py_strip_def)
  then have "\<not> re_match_fecha (hd (pad_cells (c # rest)))"
    using hd_pad_cells [of c rest] by (simp add: re_match_fecha_def)
  with build_fila_hd [OF length_pad_cells, of "c # rest"] show ?thesis by auto
qed

lemma take_pad_cells: "take 6 (pad_cells (take 6 raw)) = take 6 (pad_cells raw)"
  by (cases "length raw < 6") (simp_all add: pad_cells_def Let_def take_map)

lemma build_fila_pad_take: "build_fila (pad_cells (take 6 raw)) = build_fila (pad_cells raw)"
  using build_fila_take [of "pad_cells (take 6 raw)"] build_fila_take [of "pad_cells raw"]
  by (simp add: take_pad_cells)

lemma process_row_take: "process_row (take 6 raw) = process_row raw"
proof (cases raw)
  case Nil
  then show ?thesis by simp
next
  case (Cons c rest)
  show ?thesis
  proof (cases "list_ex truthy (take 6 raw)")
    case True
    then have "list_ex truthy raw"
      by (auto simp: list_ex_iff dest: in_set_takeD)
    with True Cons show ?thesis
      using build_fila_pad_take [of raw] by (auto simp: process_row_def)
  next
    case False
    with Cons have "\<not> truthy c" by (simp add: list_ex_iff)
    then have "build_fila (pad_cells raw) = None"
      using Cons build_fila_falsy_head by simp
    with False show ?thesis by (simp add: process_row_def)
  qed
qed

text \<open>
  C9: only the first six cells of a row count. Cutting a row after its sixth cell changes
  neither whether it is accepted nor any field of the transaction built from it, and so
  leaves the rows a table contributes unchanged.
\<close>

theorem cells_beyond_sixth_ignored:
  "process_row (take 6 raw) = process_row raw
   \<and> map_option add_columns (process_row (take 6 raw)) = map_option add_columns (process_row raw)
   \<and> table_rows (header # map (take 6) rows) = table_rows (header # rows)"
proof -
  have "List.map_filter process_row (map (take 6) rows) = List.map_filter process_row rows"
    by (induction rows) (simp_all add: List.map_filter_simps process_row_take split: option.splits)
  then show ?thesis
    by (simp add: process_row_take table_rows_def Let_def)
qed

text \<open>
  C4 on the row whose debit cell is \<open>-5,00\<close>: the normalizer returns -5.0, the direction is
  \<open>DEBITO\<close> since \<open>abs(deb) > 0\<close>, the signed amount is \<open>-deb\<close> = +5.0 and the magnitude is
  -5.0. The docstring of the parser promises a negative signed amount for a debit and a
  magnitude that is always positive.
\<close>

theorem negative_debit_row:
  "map_option (\<lambda>t. (tipo t, debito t, importe t, importe_raw t))
     (process_row [Some ''01/03/24'', Some ''123'', Some ''AJUSTE'', Some ''-5,00'', Some [],
        Some ''100,00''])
   = Some (''DEBITO'', Fin (- 5), Fin 5, Fin (- 5))"
  by code_simp

section \<open>Properties of the ledger order\<close>

lemma sort_rank_eq_iff:
  "sort_rank t = sort_rank t' \<longleftrightarrow> fecha t = fecha t' \<and> comprobante t = comprobante t'"
  by (auto simp: sort_rank_def split: option.splits)

lemma sort_rank_le:
  assumes "sort_rank t \<le> sort_rank t'"
  shows "(fecha t = None \<longrightarrow> fecha t' = None)
     \<and> (\<forall>d d'. fecha t = Some d \<and> fecha t' = Some d' \<longrightarrow> d \<le> d')
     \<and> (fecha t = fecha t' \<longrightarrow> comprobante t \<le> comprobante t')"
  using assms
  by (auto simp: sort_rank_def less_eq_prod_def less_prod_def split: option.splits)

lemma sorted_parse: "sorted (map sort_rank (parse_santander_pdf pages))"
  by (simp add: parse_santander_pdf_def sort_values_def Let_def)

text \<open>
  C2, as the claim states it, fails: \<open>sort_values\<close> runs with its default
  \<open>na_position="last"\<close>, so the row whose date does not parse (the 31st of February) comes
  after the dated row, not before it.
\<close>

theorem null_dates_sort_last:
  "map fecha (parse_santander_pdf
     [[[[Some ''Fecha'', Some ''Saldo''],
        [Some ''31/02/99'', Some ''A''],
        [Some ''01/03/24'', Some ''B'']]]]) = [Some (2024, 3, 1), None]"
  by code_simp

text \<open>
  C2, amended: the ledger is sorted by date ascending, then by reference ascending, and a
  row whose date failed to parse sorts as the latest possible value: once a row without a
  date occurs, every later row is without a date too. Dates compare as (year, month, day),
  references as strings, character by character.
\<close>

theorem ledger_sorted:
  assumes "i < j" and "j < length (parse_santander_pdf pages)"
  shows "(fecha (parse_santander_pdf pages ! i) = None
            \<longrightarrow> fecha (parse_santander_pdf pages ! j) = None)
     \<and> (\<forall>d d'. fecha (parse_santander_pdf pages ! i) = Some d
               \<and> fecha (parse_santander_pdf pages ! j) = Some d' \<longrightarrow> d \<le> d')
     \<and> (fecha (parse_santander_pdf pages ! i) = fecha (parse_santander_pdf pages ! j)
            \<longrightarrow> comprobante (parse_santander_pdf pages ! i)
                  \<le> comprobante (parse_santander_pdf pages ! j))"
proof -
  let ?L = "parse_santander_pdf pages"
  from assms have "map sort_rank ?L ! i \<le> map sort_rank ?L ! j"
    using sorted_parse [of pages] by (simp add: sorted_iff_nth_mono del: nth_map)
  with assms have "sort_rank (?L ! i) \<le> sort_rank (?L ! j)"
    by simp
  then show ?thesis by (rule sort_rank_le)
qed

text \<open>
  C3: the sort is stable. For every key (date, reference), the transactions with that key
  stand in the ledger in the order in which the rows were extracted from the document.
\<close>

theorem ledger_stable:
  "filter (\<lambda>t. fecha t = d \<and> comprobante t = c) (parse_santander_pdf pages)
   = filter (\<lambda>t. fecha t = d \<and> comprobante t = c) (map add_columns (extract_rows pages))"
proof -
  let ?k = "((case d of None \<Rightarrow> (1, (0, 0, 0)) | Some x \<Rightarrow> (0, x)), c)"
  have k: "(\<lambda>t. fecha t = d \<and> comprobante t = c) = (\<lambda>t. sort_rank t = ?k)"
    by (auto simp: sort_rank_def fun_eq_iff split: option.splits)
  show ?thesis
    unfolding k by (simp add: parse_santander_pdf_def sort_values_def Let_def sort_key_stable)
qed

theorem ledger_sorted_witness:
  "(1::nat) < 2
   \<and> 2 < length (parse_santander_pdf [[[[Some ''Fecha'', Some ''Saldo''],
         [Some ''31/02/99'', Some ''A''], [Some ''01/03/24'', Some ''B''],
         [Some ''30/02/99'', Some ''B'']]]])
   \<and> fecha (parse_santander_pdf [[[[Some ''Fecha'', Some ''Saldo''],
         [Some ''31/02/99'', Some ''A''], [Some ''01/03/24'', Some ''B''],
         [Some ''30/02/99'', Some ''B'']]]] ! 1) = None
   \<and> fecha (parse_santander_pdf [[[[Some ''Fecha'', Some ''Saldo''],
         [Some ''31/02/99'', Some ''A''], [Some ''01/03/24'', Some ''B''],
         [Some ''30/02/99'', Some ''B'']]]] ! 2) = None
   \<and> comprobante (parse_santander_pdf [[[[Some ''Fecha'', Some ''Saldo''],
         [Some ''31/02/99'', Some ''A''], [Some ''01/03/24'', Some ''B''],
         [Some ''30/02/99'', Some ''B'']]]] ! 1)
     \<le> comprobante (parse_santander_pdf [[[[Some ''Fecha'', Some ''Saldo''],
         [Some ''31/02/99'', Some ''A''], [Some ''01/03/24'', Some ''B''],
         [Some ''30/02/99'', Some ''B'']]]] ! 2)"
proof -
  let ?L = "parse_santander_pdf [[[[Some ''Fecha'', Some ''Saldo''],
         [Some ''31/02/99'', Some ''A''], [Some ''01/03/24'', Some ''B''],
         [Some ''30/02/99'', Some ''B'']]]]"
  have l: "2 < length ?L"
    by code_simp
  have n: "fecha (?L ! 1) = None"
    by code_simp
  have o: "(1::nat) < 2" by simp
  note s = ledger_sorted [OF o l]
  from s n have n2: "fecha (?L ! 2) = None"
    by blast
  with s n have c: "comprobante (?L ! 1) \<le> comprobante (?L ! 2)"
    by presburger
  show ?thesis by (intro conjI o l n n2 c)
qed

section \<open>Properties of the tax summary\<close>

lemma insort_key_map:
  "insort_key f (g x) (map g xs) = map g (insort_key (\<lambda>y. f (g y)) x xs)"
  by (induction xs) simp_all

lemma sort_key_map: "sort_key f (map g xs) = map g (sort_key (\<lambda>y. f (g y)) xs)"
  by (induction xs) (simp_all add: insort_key_map)

lemma orden_categorias: "map orden categorias_interes = [0, 1, 2, 3, 4, 5, 6]"
  by code_simp

lemma sorted_orden: "sorted (map orden categorias_interes)"
  by (simp add: orden_categorias)

lemma distinct_orden: "distinct (map orden categorias_interes)"
  by (simp add: orden_categorias)

lemma sort_by_orden:
  assumes "distinct xs" and "set xs \<subseteq> set categorias_interes"
  shows "sort_key orden xs = filter (\<lambda>c. c \<in> set xs) categorias_interes"
proof -
  let ?ys = "sort_key orden xs" and ?zs = "filter (\<lambda>c. c \<in> set xs) categorias_interes"
  have inj: "inj_on orden (set categorias_interes)"
    using distinct_orden by (simp add: distinct_map)
  have sets: "set ?ys = set ?zs"
    using assms(2) by auto
  have "distinct (map orden ?ys)"
    using assms inj by (simp add: distinct_map inj_on_subset)
  moreover have "distinct (map orden ?zs)"
    using distinct_orden by (rule distinct_map_filter)
  moreover have "sorted (map orden ?zs)"
    using sorted_orden by (rule sorted_filter)
  moreover have "set (map orden ?ys) = set (map orden ?zs)"
    using sets by simp
  ultimately have "map orden ?ys = map orden ?zs"
    using sorted_distinct_set_unique [of "map orden ?ys" "map orden ?zs"] by simp
  moreover have "inj_on orden (set ?ys \<union> set ?zs)"
    using inj assms(2) by (auto intro: inj_on_subset)
  ultimately show ?thesis
    by (simp add: inj_on_map_eq_map)
qed

subsection \<open>The float sum of whole amounts\<close>

lemma bit_length_bounds:
  "0 < n \<Longrightarrow> 2 ^ (bit_length n - 1) \<le> n \<and> n < 2 ^ bit_length n"
proof (induction n rule: bit_length.induct)
  case (1 n)
  show ?case
  proof (cases "n = 1")
    case True
    then show ?thesis by (simp add: bit_length.simps [of 1] bit_length.simps [of 0])
  next
    case False
    with "1.prems" have pos: "0 < n div 2" by simp
    with "1.IH" "1.prems" have ih: "2 ^ (bit_length (n div 2) - 1) \<le> n div 2"
      "n div 2 < 2 ^ bit_length (n div 2)" by simp_all
    from pos have bl: "bit_length (n div 2) \<noteq> 0"
      by (simp add: bit_length.simps [of "n div 2"])
    have eq: "bit_length n = Suc (bit_length (n div 2))"
      using "1.prems" by (simp add: bit_length.simps [of n])
    from bl obtain k where k: "bit_length (n div 2) = Suc k"
      by (cases "bit_length (n div 2)") simp_all
    from ih k have "2 * 2 ^ k \<le> n" "n < 2 * 2 ^ Suc k"
      by simp_all
    with eq k show ?thesis by simp
  qed
qed


lemma round64_whole:
  assumes "0 < n" and "n < 2 ^ 53"
  shows "round64 neg n 1 = Fin (if neg then - rat_of_int n else rat_of_int n)"
proof -
  let ?b = "bit_length n"
  from assms(1) have lo: "2 ^ (?b - 1) \<le> n" and hi: "n < 2 ^ ?b"
    using bit_length_bounds by simp_all
  from assms(1) have b0: "0 < ?b"
    by (simp add: bit_length.simps [of n])
  have b53: "?b \<le> 53"
  proof (rule ccontr)
    assume "\<not> ?b \<le> 53"
    then have "53 \<le> ?b - 1" by simp
    then have "(2::int) ^ 53 \<le> 2 ^ (?b - 1)"
      by (rule power_increasing) simp
    with lo assms(2) show False by simp
  qed
  have b1: "bit_length 1 = 1"
    by (simp add: bit_length.simps [of 1] bit_length.simps [of 0])
  have fl: "floor_log2 n 1 = int ?b - 1"
    using lo b0 by (simp add: floor_log2_def b1 Let_def nat_diff_distrib)
  have e: "max (floor_log2 n 1 - 52) (- 1074) = int ?b - 53"
    using fl by simp
  show ?thesis
  proof (cases "?b = 53")
    case True
    with e assms show ?thesis
      by (simp add: round64_def Let_def round_half_even_def)
  next
    case False
    with b53 have lt: "?b < 53" by simp
    then have neg: "\<not> 0 \<le> int ?b - 53" by simp
    have nz: "rat_of_int (2 ^ nat (53 - int ?b)) \<noteq> 0" by simp
    from assms(1) e neg show ?thesis
      by (simp add: round64_def Let_def round_half_even_def del: of_int_power)
  qed
qed

lemma round_rat_whole: "\<bar>n\<bar> < 2 ^ 53 \<Longrightarrow> round_rat (rat_of_int n) = Fin (rat_of_int n)"
proof (cases "n = 0")
  case True
  then show ?thesis by (simp add: round_rat_def round64_def)
next
  case False
  assume "\<bar>n\<bar> < 2 ^ 53"
  with False round64_whole [of "\<bar>n\<bar>" "n < 0"] show ?thesis
    by (auto simp: round_rat_def)
qed

lemma float_add_whole:
  "\<bar>a + b\<bar> < 2 ^ 53 \<Longrightarrow> float_add (Fin (rat_of_int a)) (Fin (rat_of_int b)) = Fin (rat_of_int (a + b))"
  using round_rat_whole [of "a + b"] by simp

lemma float_sub_whole:
  "\<bar>a - b\<bar> < 2 ^ 53 \<Longrightarrow> float_sub (Fin (rat_of_int a)) (Fin (rat_of_int b)) = Fin (rat_of_int (a - b))"
  using float_add_whole [of a "- b"] by (simp add: float_sub_def)

lemma kahan_step_whole:
  assumes "0 \<le> s" and "0 \<le> k" and "s + k < 2 ^ 53"
  shows "kahan_step (Fin (rat_of_int s), Fin 0) (Fin (rat_of_int k))
     = (Fin (rat_of_int (s + k)), Fin 0)"
proof -
  have y: "float_sub (Fin (rat_of_int k)) (Fin 0) = Fin (rat_of_int k)"
    using float_sub_whole [of k 0] assms by simp
  have t: "float_add (Fin (rat_of_int s)) (Fin (rat_of_int k)) = Fin (rat_of_int (s + k))"
    using float_add_whole [of s k] assms by simp
  have d: "float_sub (Fin (rat_of_int (s + k))) (Fin (rat_of_int s)) = Fin (rat_of_int k)"
    using float_sub_whole [of "s + k" s] assms by simp
  have c: "float_sub (Fin (rat_of_int k)) (Fin (rat_of_int k)) = Fin 0"
    using float_sub_whole [of k k] assms by simp
  show ?thesis
    unfolding kahan_step_def Let_def prod.case y t d c by simp
qed

lemma foldl_kahan_whole:
  assumes "0 \<le> s" and "\<forall>k \<in> set ks. 0 \<le> k" and "s + sum_list ks < 2 ^ 53"
  shows "foldl kahan_step (Fin (rat_of_int s), Fin 0) (map (\<lambda>k. Fin (rat_of_int k)) ks)
     = (Fin (rat_of_int (s + sum_list ks)), Fin 0)"
  using assms
proof (induction ks arbitrary: s)
  case Nil
  then show ?case by simp
next
  case (Cons k ks)
  have nn: "0 \<le> sum_list ks"
    using Cons.prems(2) by (simp add: sum_list_nonneg)
  from Cons.prems have k: "0 \<le> k" and sk: "s + k < 2 ^ 53"
    using nn by simp_all
  have "foldl kahan_step (Fin (rat_of_int (s + k)), Fin 0) (map (\<lambda>k. Fin (rat_of_int k)) ks)
     = (Fin (rat_of_int (s + k + sum_list ks)), Fin 0)"
    using Cons.prems k by (intro Cons.IH) (simp_all add: add.assoc)
  with kahan_step_whole [OF Cons.prems(1) k sk] show ?case
    by (simp add: add.assoc)
qed

lemma group_sum_whole:
  assumes "\<forall>k \<in> set ks. 0 \<le> k" and "sum_list ks < 2 ^ 53"
  shows "group_sum (map (\<lambda>k. Fin (rat_of_int k)) ks) = Fin (rat_of_int (sum_list ks))"
  using foldl_kahan_whole [of 0 ks] assms by (simp add: group_sum_def)

subsection \<open>The summary\<close>

lemma resumen_rows:
  "construir_resumen_impositivo df =
     map (\<lambda>c. (c, group_sum (map importe_raw (filter (\<lambda>r. categoria r = c) df))))
       (filter (\<lambda>c. c \<in> categoria ` set df) categorias_interes)"
proof -
  let ?L = categorias_interes
  let ?imp = "filter (\<lambda>r. categoria r \<in> set ?L) df"
  let ?g = "\<lambda>c. (c, group_sum (map importe_raw (filter (\<lambda>r. categoria r = c) ?imp)))"
  let ?h = "\<lambda>c. (c, group_sum (map importe_raw (filter (\<lambda>r. categoria r = c) df)))"
  let ?keys = "sort (remdups (map categoria ?imp))"
  have keys: "distinct ?keys" "set ?keys \<subseteq> set ?L"
    by auto
  have sel: "filter (\<lambda>c. c \<in> set ?keys) ?L = filter (\<lambda>c. c \<in> categoria ` set df) ?L"
    by (rule filter_cong) auto
  have gh: "map ?g (filter (\<lambda>c. c \<in> categoria ` set df) ?L)
      = map ?h (filter (\<lambda>c. c \<in> categoria ` set df) ?L)"
  proof (rule map_cong [OF refl])
    fix c assume "c \<in> set (filter (\<lambda>c. c \<in> categoria ` set df) ?L)"
    then have "c \<in> set ?L" by simp
    then have "filter (\<lambda>r. categoria r = c) ?imp = filter (\<lambda>r. categoria r = c) df"
      by (auto intro: filter_cong)
    then show "?g c = ?h c" by simp
  qed
  have "sort_key (\<lambda>row. orden (fst row)) (map ?g ?keys) = map ?g (sort_key orden ?keys)"
    by (simp add: sort_key_map)
  also have "\<dots> = map ?g (filter (\<lambda>c. c \<in> set ?keys) ?L)"
    using sort_by_orden [OF keys] by simp
  also have "\<dots> = map ?h (filter (\<lambda>c. c \<in> categoria ` set df) ?L)"
    using sel gh by simp
  finally have main: "sort_key (\<lambda>row. orden (fst row)) (map ?g ?keys)
      = map ?h (filter (\<lambda>c. c \<in> categoria ` set df) ?L)" .
  show ?thesis
  proof (cases "?imp = []")
    case True
    then have "filter (\<lambda>c. c \<in> categoria ` set df) ?L = []"
      by (auto simp: filter_empty_conv)
    with True show ?thesis
      by (simp add: construir_resumen_impositivo_def)
  next
    case False
    then have "df \<noteq> []" by auto
    with False main show ?thesis
      by (simp add: construir_resumen_impositivo_def Let_def)
  qed
qed

text \<open>
  C6: the tax summary has one row for each category of the allow-list that occurs in the
  ledger, and no other row; the rows stand in the order in which the allow-list declares
  the categories; the amount of a row is the sum, as pandas adds floats, of the magnitudes
  \<open>importe_raw\<close> of exactly the ledger rows of that category, in ledger order. A ledger
  without such a row, the empty one included, has the empty summary. The float sum of no
  value is 0.0, and the float sum of whole non-negative amounts whose total stays below
  \<open>2^53\<close> is their exact sum.
\<close>

theorem resumen_by_category:
  "construir_resumen_impositivo df =
     map (\<lambda>c. (c, group_sum (map importe_raw (filter (\<lambda>r. categoria r = c) df))))
       (filter (\<lambda>c. c \<in> categoria ` set df) categorias_interes)
   \<and> (\<not> (\<exists>r \<in> set df. categoria r \<in> set categorias_interes)
        \<longrightarrow> construir_resumen_impositivo df = [])
   \<and> group_sum [] = Fin 0
   \<and> ((\<forall>k \<in> set ks. 0 \<le> k) \<and> sum_list ks < 2 ^ 53
        \<longrightarrow> group_sum (map (\<lambda>k. Fin (rat_of_int k)) ks) = Fin (rat_of_int (sum_list ks)))"
proof -
  have "construir_resumen_impositivo df = []"
    if "\<not> (\<exists>r \<in> set df. categoria r \<in> set categorias_interes)"
  proof -
    from that have "filter (\<lambda>r. categoria r \<in> set categorias_interes) df = []"
      by (simp add: filter_empty_conv)
    then show ?thesis
      by (simp add: construir_resumen_impositivo_def)
  qed
  moreover have "group_sum [] = Fin 0"
    by (simp add: group_sum_def)
  ultimately show ?thesis
    using resumen_rows [of df] group_sum_whole [of ks] by blast
qed

theorem resumen_by_category_witness:
  "construir_resumen_impositivo (map add_columns
     [make_fila ''03/01/24'' ''C'' ''IVA 21% REG'' ''0,10'' [] [],
      make_fila ''01/01/24'' ''A'' ''SIRCREB'' ''10,00'' [] [],
      make_fila ''02/01/24'' ''D'' ''DEPOSITO EFVO'' [] ''500,00'' [],
      make_fila ''02/01/24'' ''B'' ''Sircreb'' ''2,50'' [] []])
     = [(cat_sircreb, Fin (25 / 2)), (cat_iva21, round_rat (1 / 10))]
   \<and> construir_resumen_impositivo (map add_columns
     [make_fila ''02/01/24'' ''D'' ''DEPOSITO EFVO'' [] ''500,00'' [] ]) = []
   \<and> group_sum [Fin 10, Fin 2, Fin 30] = Fin 42"
proof -
  let ?df = "map add_columns
     [make_fila ''03/01/24'' ''C'' ''IVA 21% REG'' ''0,10'' [] [],
      make_fila ''01/01/24'' ''A'' ''SIRCREB'' ''10,00'' [] [],
      make_fila ''02/01/24'' ''D'' ''DEPOSITO EFVO'' [] ''500,00'' [],
      make_fila ''02/01/24'' ''B'' ''Sircreb'' ''2,50'' [] []]"
  let ?dg = "map add_columns [make_fila ''02/01/24'' ''D'' ''DEPOSITO EFVO'' [] ''500,00'' [] ]"
  have v: "map (\<lambda>c. (c, group_sum (map importe_raw (filter (\<lambda>r. categoria r = c) ?df))))
       (filter (\<lambda>c. c \<in> categoria ` set ?df) categorias_interes)
     = [(cat_sircreb, Fin (25 / 2)), (cat_iva21, round_rat (1 / 10))]"
    by code_simp
  have n: "\<not> (\<exists>r \<in> set ?dg. categoria r \<in> set categorias_interes)"
    by code_simp
  have w: "(\<forall>k \<in> set [10, 2, 30 :: int]. 0 \<le> k) \<and> sum_list [10, 2, 30 :: int] < 2 ^ 53"
    by simp
  from resumen_by_category [of ?df "[]"] v
  have 1: "construir_resumen_impositivo ?df
      = [(cat_sircreb, Fin (25 / 2)), (cat_iva21, round_rat (1 / 10))]"
    by (simp only:)
  from resumen_by_category [of ?dg "[]"] n
  have 2: "construir_resumen_impositivo ?dg = []"
    by blast
  from resumen_by_category [of "[]" "[10, 2, 30]"] w
  have "group_sum (map (\<lambda>k. Fin (rat_of_int k)) [10, 2, 30]) = Fin (rat_of_int (sum_list [10, 2, 30]))"
    by blast
  then have 3: "group_sum [Fin 10, Fin 2, Fin 30] = Fin 42"
    by simp
  show ?thesis by (intro conjI 1 2 3)
qed

section \<open>Properties of the balance snapshot\<close>

lemma find_filter: "find P xs = (case filter P xs of [] \<Rightarrow> None | x # _ \<Rightarrow> Some x)"
  by (induction xs) simp_all

lemma lower_marker: "py_lower ''saldo inicial'' = ''saldo inicial''"
  by code_simp

lemma iloc_first_saldo: "df \<noteq> [] \<Longrightarrow> iloc_first (map saldo df) = Inr (saldo (hd df))"
  by (cases df) (simp_all add: iloc_first_def)

lemma iloc_last_saldo: "df \<noteq> [] \<Longrightarrow> iloc_last (map saldo df) = Inr (saldo (last df))"
  by (simp add: iloc_last_def last_map)

lemma iloc_first_filter:
  "iloc_first (map f (filter P xs)) = (case find P xs of None \<Rightarrow> Inl IndexError | Some x \<Rightarrow> Inr (f x))"
  by (induction xs) (simp_all add: iloc_first_def)

lemma list_ex_find: "list_ex P xs \<longleftrightarrow> find P xs \<noteq> None"
  by (induction xs) simp_all

text \<open>
  C7: the opening balance is the balance of the first row, in ledger order, whose
  description contains \<open>saldo inicial\<close> in any mix of cases, or of the first row of the
  ledger when there is no such row; the closing balance is the balance of the last row.
  The empty ledger gives 0.0 twice, and no call raises.
\<close>

theorem calcular_saldos_snapshot:
  "calcular_saldos [] = Inr (Fin 0, Fin 0)
   \<and> (df \<noteq> [] \<longrightarrow> calcular_saldos df =
        Inr ((case find (\<lambda>r. py_in ''saldo inicial'' (py_lower (movimiento r))) df of
                Some r \<Rightarrow> saldo r | None \<Rightarrow> saldo (hd df)),
             saldo (last df)))"
proof (intro conjI impI)
  show "calcular_saldos [] = Inr (Fin 0, Fin 0)"
    by (simp add: calcular_saldos_def)
next
  let ?P = "\<lambda>r. py_in ''saldo inicial'' (py_lower (movimiento r))"
  assume ne: "df \<noteq> []"
  have mask: "(\<lambda>r. str_contains_nocase ''saldo inicial'' (movimiento r)) = ?P"
    unfolding str_contains_nocase_def lower_marker ..
  from ne have f1: "iloc_first (map saldo df) = Inr (saldo (hd df))"
    by (rule iloc_first_saldo)
  from ne have f2: "iloc_last (map saldo df) = Inr (saldo (last df))"
    by (rule iloc_last_saldo)
  show "calcular_saldos df =
      Inr ((case find ?P df of Some r \<Rightarrow> saldo r | None \<Rightarrow> saldo (hd df)), saldo (last df))"
  proof (cases "find ?P df")
    case None
    then have "\<not> list_ex ?P df"
      by (simp only: list_ex_find not_not)
    with ne None show ?thesis
      unfolding calcular_saldos_def mask Let_def
      by (simp add: f1 f2)
  next
    case (Some r)
    then have "list_ex ?P df"
      by (simp only: list_ex_find) simp
    with ne Some show ?thesis
      unfolding calcular_saldos_def mask Let_def
      by (simp add: iloc_first_filter f2)
  qed
qed

theorem calcular_saldos_snapshot_witness:
  "map add_columns
     [make_fila ''01/01/24'' ''A'' ''TRANSFERENCIA'' [] ''5,00'' ''5,00'',
      make_fila ''01/01/24'' ''B'' ''Saldo Inicial'' [] [] ''1.000,00'',
      make_fila ''02/01/24'' ''C'' ''SIRCREB'' ''10,00'' [] ''990,00''] \<noteq> []
   \<and> calcular_saldos (map add_columns
     [make_fila ''01/01/24'' ''A'' ''TRANSFERENCIA'' [] ''5,00'' ''5,00'',
      make_fila ''01/01/24'' ''B'' ''Saldo Inicial'' [] [] ''1.000,00'',
      make_fila ''02/01/24'' ''C'' ''SIRCREB'' ''10,00'' [] ''990,00''])
     = Inr (Fin 1000, Fin 990)"
proof -
  let ?df = "map add_columns
     [make_fila ''01/01/24'' ''A'' ''TRANSFERENCIA'' [] ''5,00'' ''5,00'',
      make_fila ''01/01/24'' ''B'' ''Saldo Inicial'' [] [] ''1.000,00'',
      make_fila ''02/01/24'' ''C'' ''SIRCREB'' ''10,00'' [] ''990,00'']"
  have ne: "?df \<noteq> []"
    by simp
  have v: "((case find (\<lambda>r. py_in ''saldo inicial'' (py_lower (movimiento r))) ?df of
                Some r \<Rightarrow> saldo r | None \<Rightarrow> saldo (hd ?df)),
             saldo (last ?df)) = (Fin 1000, Fin 990)"
    by code_simp
  from calcular_saldos_snapshot [of ?df] ne
  have "calcular_saldos ?df =
        Inr ((case find (\<lambda>r. py_in ''saldo inicial'' (py_lower (movimiento r))) ?df of
                Some r \<Rightarrow> saldo r | None \<Rightarrow> saldo (hd ?df)),
             saldo (last ?df))"
    by blast
  with v have "calcular_saldos ?df = Inr (Fin 1000, Fin 990)"
    by (simp only:)
  with ne show ?thesis by (intro conjI)
qed

end
